theory Spec2Isabelle
  imports Complex_Main
begin

section \<open>Numbers\<close>

text \<open>
  Every numeric value of the program is a JavaScript \<^verbatim>\<open>number\<close>. The model keeps the finite
  values as exact reals and adds the three values that are not finite, because the program
  divides by a distance that can be zero and JavaScript then produces \<^verbatim>\<open>Infinity\<close> or
  \<^verbatim>\<open>NaN\<close> instead of failing. Rounding and overflow of the binary representation are not
  modelled. Zeros carry no sign: a division by zero is a division by the positive zero,
  which is what the divisors \<^verbatim>\<open>distance\<close> and \<^verbatim>\<open>distance * distance\<close> of the program are
  when they vanish (\<^verbatim>\<open>totalMass\<close> is the negative zero only for two masses that are negative
  zeros).
\<close>

datatype number = Fin real | PosInf | NegInf | NaN

fun is_finite :: "number \<Rightarrow> bool" where
  "is_finite (Fin a) = True"
| "is_finite PosInf = False"
| "is_finite NegInf = False"
| "is_finite NaN = False"

instantiation number :: uminus
begin

fun uminus_number :: "number \<Rightarrow> number" where
  "uminus_number (Fin a) = Fin (- a)"
| "uminus_number PosInf = NegInf"
| "uminus_number NegInf = PosInf"
| "uminus_number NaN = NaN"

instance ..

end

instantiation number :: plus
begin

fun plus_number :: "number \<Rightarrow> number \<Rightarrow> number" where
  "plus_number (Fin a) (Fin b) = Fin (a + b)"
| "plus_number NaN y = NaN"
| "plus_number x NaN = NaN"
| "plus_number PosInf NegInf = NaN"
| "plus_number NegInf PosInf = NaN"
| "plus_number PosInf y = PosInf"
| "plus_number x PosInf = PosInf"
| "plus_number NegInf y = NegInf"
| "plus_number x NegInf = NegInf"

instance ..

end

instantiation number :: minus
begin

definition minus_number :: "number \<Rightarrow> number \<Rightarrow> number" where
  "minus_number x y = x + (- y)"

instance ..

end

text \<open>The sign of an infinite product or quotient: \<open>True\<close> for a positive result.\<close>

fun signed_inf :: "bool \<Rightarrow> number" where
  "signed_inf True = PosInf"
| "signed_inf False = NegInf"

instantiation number :: times
begin

fun times_number :: "number \<Rightarrow> number \<Rightarrow> number" where
  "times_number (Fin a) (Fin b) = Fin (a * b)"
| "times_number NaN y = NaN"
| "times_number x NaN = NaN"
| "times_number PosInf (Fin b) = (if b = 0 then NaN else signed_inf (0 < b))"
| "times_number NegInf (Fin b) = (if b = 0 then NaN else signed_inf (b < 0))"
| "times_number (Fin a) PosInf = (if a = 0 then NaN else signed_inf (0 < a))"
| "times_number (Fin a) NegInf = (if a = 0 then NaN else signed_inf (a < 0))"
| "times_number PosInf PosInf = PosInf"
| "times_number PosInf NegInf = NegInf"
| "times_number NegInf PosInf = NegInf"
| "times_number NegInf NegInf = PosInf"

instance ..

end

instantiation number :: inverse
begin

fun divide_number :: "number \<Rightarrow> number \<Rightarrow> number" where
  "divide_number (Fin a) (Fin b) =
     (if b \<noteq> 0 then Fin (a / b)
      else if a = 0 then NaN
      else signed_inf (0 < a))"
| "divide_number NaN y = NaN"
| "divide_number x NaN = NaN"
| "divide_number (Fin a) PosInf = Fin 0"
| "divide_number (Fin a) NegInf = Fin 0"
| "divide_number PosInf (Fin b) = signed_inf (0 \<le> b)"
| "divide_number NegInf (Fin b) = signed_inf (b < 0)"
| "divide_number PosInf PosInf = NaN"
| "divide_number PosInf NegInf = NaN"
| "divide_number NegInf PosInf = NaN"
| "divide_number NegInf NegInf = NaN"

definition inverse_number :: "number \<Rightarrow> number" where
  "inverse_number x = divide (Fin 1) x"

instance ..

end

instantiation number :: abs
begin

fun abs_number :: "number \<Rightarrow> number" where
  "abs_number (Fin a) = Fin \<bar>a\<bar>"
| "abs_number PosInf = PosInf"
| "abs_number NegInf = PosInf"
| "abs_number NaN = NaN"

instance ..

end

text \<open>
  Comparisons: every comparison with \<^verbatim>\<open>NaN\<close> is false. The source's \<^verbatim>\<open>a > b\<close> is
  \<open>b < a\<close>, written \<open>a > b\<close> below.
\<close>

instantiation number :: ord
begin

fun less_number :: "number \<Rightarrow> number \<Rightarrow> bool" where
  "less_number (Fin a) (Fin b) = (a < b)"
| "less_number NaN y = False"
| "less_number x NaN = False"
| "less_number x NegInf = False"
| "less_number PosInf y = False"
| "less_number NegInf y = True"
| "less_number x PosInf = True"

definition less_eq_number :: "number \<Rightarrow> number \<Rightarrow> bool" where
  "less_eq_number x y = (x < y \<or> (x = y \<and> x \<noteq> NaN))"

instance ..

end

text \<open>\<^verbatim>\<open>Math.sqrt\<close>.\<close>

fun Math_sqrt :: "number \<Rightarrow> number" where
  "Math_sqrt (Fin a) = (if a < 0 then NaN else Fin (sqrt a))"
| "Math_sqrt PosInf = PosInf"
| "Math_sqrt NegInf = NaN"
| "Math_sqrt NaN = NaN"

section \<open>The data model (src/lib/types.ts)\<close>

datatype ObjectType = Planet | BlackHole

type_synonym vec3 = "number \<times> number \<times> number"

record SpaceTimeObject =
  obj_id :: string
  obj_type :: ObjectType
  position :: vec3
  velocity :: vec3
  mass :: number
  radius :: number

section \<open>The store (src/lib/store.ts)\<close>

text \<open>
  The store holds the list \<^verbatim>\<open>objects\<close>; each operation maps the old list to the new one.
\<close>

definition addObject :: "SpaceTimeObject \<Rightarrow> SpaceTimeObject list \<Rightarrow> SpaceTimeObject list" where
  "addObject object objects = objects @ [object]"

definition updateObject :: "SpaceTimeObject \<Rightarrow> SpaceTimeObject list \<Rightarrow> SpaceTimeObject list" where
  "updateObject object objects =
     map (\<lambda>obj. if obj_id obj = obj_id object then object else obj) objects"

definition removeObject :: "string \<Rightarrow> SpaceTimeObject list \<Rightarrow> SpaceTimeObject list" where
  "removeObject ident objects = filter (\<lambda>obj. obj_id obj \<noteq> ident) objects"

section \<open>The physics frame (src/components/space-time-fabric.tsx, second useFrame)\<close>

definition gridSize :: number where
  "gridSize = Fin 20"

text \<open>
  The distance of another object at \<open>q\<close> from the object at \<open>p\<close>, as the inner loop
  computes it from \<^verbatim>\<open>dx\<close>, \<^verbatim>\<open>dy\<close>, \<^verbatim>\<open>dz\<close>.
\<close>

definition distance_to :: "vec3 \<Rightarrow> vec3 \<Rightarrow> number" where
  "distance_to p q =
     (case p of (px, py, pz) \<Rightarrow> case q of (ox, oy, oz) \<Rightarrow>
        let dx = ox - px; dy = oy - py; dz = oz - pz
        in Math_sqrt (dx * dx + dy * dy + dz * dz))"

text \<open>The components \<^verbatim>\<open>fx\<close>, \<^verbatim>\<open>fy\<close>, \<^verbatim>\<open>fz\<close> of the pull of \<open>other\<close> on the object at \<open>p\<close>.\<close>

definition pull :: "vec3 \<Rightarrow> SpaceTimeObject \<Rightarrow> vec3" where
  "pull p other =
     (case p of (px, py, pz) \<Rightarrow> case position other of (ox, oy, oz) \<Rightarrow>
        let dx = ox - px; dy = oy - py; dz = oz - pz;
            distance = Math_sqrt (dx * dx + dy * dy + dz * dz);
            forceMagnitude = (mass other * Fin 0.1) / (distance * distance);
            fx = (dx / distance) * forceMagnitude;
            fy = (dy / distance) * forceMagnitude;
            fz = (dz / distance) * forceMagnitude
        in (fx, fy, fz))"

text \<open>The velocity that the planet-planet branch assigns to \<open>obj\<close>.\<close>

definition elastic :: "SpaceTimeObject \<Rightarrow> SpaceTimeObject \<Rightarrow> vec3" where
  "elastic obj other =
     (let m1 = mass obj; m2 = mass other; totalMass = m1 + m2
      in case velocity obj of (v1x, v1y, v1z) \<Rightarrow> case velocity other of (v2x, v2y, v2z) \<Rightarrow>
         ((v1x * (m1 - m2) + Fin 2 * m2 * v2x) / totalMass,
          (v1y * (m1 - m2) + Fin 2 * m2 * v2y) / totalMass,
          (v1z * (m1 - m2) + Fin 2 * m2 * v2z) / totalMass))"

text \<open>
  One pass of the inner loop body for an \<open>other\<close> with \<^verbatim>\<open>i !== j\<close>. \<open>p\<close> and \<open>v\<close> are the
  position and velocity of \<open>obj\<close> read before the loop (\<^verbatim>\<open>px\<close>, \<^verbatim>\<open>vx\<close>, ...). The result is
  the object as the pass leaves it, and whether the pass ends in \<^verbatim>\<open>break\<close>, which it does
  exactly when it has pushed the object's id on \<^verbatim>\<open>objectsToRemove\<close>.
\<close>

definition interact :: "vec3 \<Rightarrow> vec3 \<Rightarrow> SpaceTimeObject \<Rightarrow> SpaceTimeObject \<Rightarrow> SpaceTimeObject \<times> bool" where
  "interact p v other obj =
     (let distance = distance_to p (position other)
      in if distance > Fin 10 then (obj, False)
         else case v of (vx, vy, vz) \<Rightarrow> case pull p other of (fx, fy, fz) \<Rightarrow>
           let obj1 = obj\<lparr>velocity := (vx + fx, vy + fy, vz + fz)\<rparr>
           in if distance < radius obj1 + radius other then
                if obj_type other = BlackHole then (obj1, True)
                else if obj_type obj1 = Planet \<and> obj_type other = Planet then
                  (obj1\<lparr>velocity := elastic obj1 other\<rparr>, False)
                else (obj1, False)
              else (obj1, False))"

text \<open>
  The inner loop over \<^verbatim>\<open>j\<close>, on the entries of \<^verbatim>\<open>updatedObjects\<close> paired with their
  indices. Entry \<open>i\<close> is skipped, so the loop reads only objects that its own writes to
  \<open>obj\<close> do not touch.
\<close>

fun gravity_loop ::
  "nat \<Rightarrow> vec3 \<Rightarrow> vec3 \<Rightarrow> (nat \<times> SpaceTimeObject) list \<Rightarrow> SpaceTimeObject \<Rightarrow> string list
     \<Rightarrow> SpaceTimeObject \<times> string list" where
  "gravity_loop i p v [] obj objectsToRemove = (obj, objectsToRemove)"
| "gravity_loop i p v ((j, other) # rest) obj objectsToRemove =
     (if i = j then gravity_loop i p v rest obj objectsToRemove
      else let (obj', stop) = interact p v other obj
           in if stop then (obj', objectsToRemove @ [obj_id obj'])
              else gravity_loop i p v rest obj' objectsToRemove)"

text \<open>The bounds test, on the position read before the loop.\<close>

definition out_of_bounds :: "vec3 \<Rightarrow> bool" where
  "out_of_bounds p =
     (case p of (px, py, pz) \<Rightarrow>
        \<bar>px\<bar> > gridSize \<or> \<bar>pz\<bar> > gridSize \<or> py < Fin (- 10) \<or> py > Fin 10)"

text \<open>The position that the outer loop assigns to the object before the inner loop.\<close>

definition advance :: "SpaceTimeObject \<Rightarrow> vec3" where
  "advance obj =
     (case velocity obj of (vx, vy, vz) \<Rightarrow> case position obj of (px, py, pz) \<Rightarrow>
        (px + vx * Fin 0.01, py + vy * Fin 0.01, pz + vz * Fin 0.01))"

text \<open>
  The outer loop body for index \<open>i\<close>, up to the call of \<^verbatim>\<open>updateObject\<close>: the object as
  the body leaves it and the new \<^verbatim>\<open>objectsToRemove\<close>.
\<close>

definition body_step :: "nat \<Rightarrow> SpaceTimeObject list \<Rightarrow> string list \<Rightarrow> SpaceTimeObject \<times> string list" where
  "body_step i updatedObjects objectsToRemove =
     (let obj = updatedObjects ! i;
          v = velocity obj;
          p = position obj;
          obj1 = obj\<lparr>position := advance obj\<rparr>;
          (obj2, marked) = gravity_loop i p v (enumerate 0 updatedObjects) obj1 objectsToRemove
      in (obj2, if out_of_bounds p then marked @ [obj_id obj2] else marked))"

text \<open>
  The outer loop. Its state is the content of \<^verbatim>\<open>updatedObjects\<close>, the store's list and
  \<^verbatim>\<open>objectsToRemove\<close>. \<^verbatim>\<open>updatedObjects\<close> is a copy of the array, not of the objects: the
  loop writes to the objects of the store, so an object updated at an earlier index is read
  in its new state at a later one. The model takes the entries of the store to be distinct
  objects. Each object is written only in its own iteration, which ends in
  \<^verbatim>\<open>updateObject(obj)\<close>; after that call the store's list holds the object's new state at
  every entry of its id, which is what \<open>updateObject\<close> on the list of values gives.
\<close>

fun frame_loop ::
  "nat list \<Rightarrow> SpaceTimeObject list \<Rightarrow> SpaceTimeObject list \<Rightarrow> string list
     \<Rightarrow> SpaceTimeObject list \<times> SpaceTimeObject list \<times> string list" where
  "frame_loop [] updatedObjects store objectsToRemove = (updatedObjects, store, objectsToRemove)"
| "frame_loop (i # rest) updatedObjects store objectsToRemove =
     (let (obj, marked) = body_step i updatedObjects objectsToRemove
      in frame_loop rest (updatedObjects[i := obj]) (updateObject obj store) marked)"

text \<open>One frame: the store's list after the loop and the removals.\<close>

definition physics_frame :: "SpaceTimeObject list \<Rightarrow> SpaceTimeObject list" where
  "physics_frame objects =
     (case frame_loop [0..<length objects] objects objects [] of
        (updatedObjects, store, objectsToRemove) \<Rightarrow>
          foldl (\<lambda>s ident. removeObject ident s) store objectsToRemove)"

section \<open>The deformation frame (src/components/space-time-fabric.tsx, first useFrame)\<close>

text \<open>
  The vertex buffers \<^verbatim>\<open>positions\<close> and \<^verbatim>\<open>gridPositions\<close> hold three numbers per vertex; the
  model keeps them as lists of triples \<open>(x, y, z)\<close>, \<open>y\<close> being the entry at \<^verbatim>\<open>i + 1\<close>.
\<close>

definition reset_positions :: "vec3 list \<Rightarrow> vec3 list" where
  "reset_positions positions = map (\<lambda>(x, y, z). (x, Fin 0, z)) positions"

text \<open>The \<^verbatim>\<open>distance\<close> of the vertex at \<open>(x, z)\<close> from \<open>obj\<close>.\<close>

definition horizontal_distance :: "number \<Rightarrow> number \<Rightarrow> SpaceTimeObject \<Rightarrow> number" where
  "horizontal_distance x z obj =
     (case position obj of (objX, objY, objZ) \<Rightarrow>
        let dx = x - objX; dz = z - objZ
        in Math_sqrt (dx * dx + dz * dz))"

text \<open>
  The loop over the objects for one vertex; \<open>y\<close> is the entry \<^verbatim>\<open>positions[i + 1]\<close>. The
  quotient and the difference are exact here. The code rounds each of them to a double and
  the stored entry to single precision, which never reverses the order of two heights but
  can make two different heights equal: the statements about heights below are bounds and
  comparisons that are not strict.
\<close>

fun deform :: "SpaceTimeObject list \<Rightarrow> number \<Rightarrow> number \<Rightarrow> number \<Rightarrow> number" where
  "deform [] x z y = y"
| "deform (obj # rest) x z y =
     (let distance = horizontal_distance x z obj
      in if distance > mass obj * Fin 4 then deform rest x z y
         else let deformation = (mass obj * Fin 2.0) / (distance + Fin 0.2)
              in deform rest x z (y - deformation))"

definition apply_deformation :: "SpaceTimeObject list \<Rightarrow> vec3 list \<Rightarrow> vec3 list" where
  "apply_deformation objects positions = map (\<lambda>(x, y, z). (x, deform objects x z y, z)) positions"

text \<open>
  One frame, once the three references are set: both buffers are reset and then deformed
  by the same loops.
\<close>

definition deformation_frame ::
  "SpaceTimeObject list \<Rightarrow> vec3 list \<Rightarrow> vec3 list \<Rightarrow> vec3 list \<times> vec3 list" where
  "deformation_frame objects positions gridPositions =
     (apply_deformation objects (reset_positions positions),
      apply_deformation objects (reset_positions gridPositions))"

section \<open>Notions used in the statements\<close>

text \<open>
  The collision test of the inner loop for an object at \<open>p\<close> of radius \<open>r\<close> and another at
  \<open>q\<close> of radius \<open>s\<close>: the pass is not left at the cutoff, and the distance is below the
  sum of the radii.
\<close>

definition overlaps :: "vec3 \<Rightarrow> number \<Rightarrow> vec3 \<Rightarrow> number \<Rightarrow> bool" where
  "overlaps p r q s =
     (let distance = distance_to p q
      in \<not> distance > Fin 10 \<and> distance < r + s)"

text \<open>The fields that no assignment of the frame writes.\<close>

definition same_static :: "SpaceTimeObject \<Rightarrow> SpaceTimeObject \<Rightarrow> bool" where
  "same_static a b \<longleftrightarrow>
     obj_id a = obj_id b \<and> obj_type a = obj_type b \<and> mass a = mass b \<and> radius a = radius b"

definition absorbing :: "nat \<Rightarrow> vec3 \<Rightarrow> number \<Rightarrow> (nat \<times> SpaceTimeObject) list \<Rightarrow> bool" where
  "absorbing i p r others \<longleftrightarrow>
     (\<exists>(j, other) \<in> set others. j \<noteq> i \<and> obj_type other = BlackHole \<and>
        overlaps p r (position other) (radius other))"

text \<open>
  The position of object \<open>j\<close> that the iteration of object \<open>i\<close> reads, in terms of the
  store at the start of the frame: an object earlier in the list has been moved already.
\<close>

definition position_seen :: "nat \<Rightarrow> nat \<Rightarrow> SpaceTimeObject list \<Rightarrow> vec3" where
  "position_seen i j objects = (if j < i then advance (objects ! j) else position (objects ! j))"

text \<open>Object \<open>i\<close> meets a black hole in its iteration.\<close>

definition absorbed :: "nat \<Rightarrow> SpaceTimeObject list \<Rightarrow> bool" where
  "absorbed i objects \<longleftrightarrow>
     (\<exists>j < length objects. j \<noteq> i \<and> obj_type (objects ! j) = BlackHole \<and>
        overlaps (position (objects ! i)) (radius (objects ! i))
          (position_seen i j objects) (radius (objects ! j)))"

definition marks_of :: "SpaceTimeObject list \<Rightarrow> nat \<Rightarrow> string list" where
  "marks_of objects i =
     (if absorbed i objects then [obj_id (objects ! i)] else []) @
     (if out_of_bounds (position (objects ! i)) then [obj_id (objects ! i)] else [])"

text \<open>The state of \<^verbatim>\<open>updatedObjects\<close> before iteration \<open>k\<close> of the outer loop.\<close>

definition in_progress :: "SpaceTimeObject list \<Rightarrow> nat \<Rightarrow> SpaceTimeObject list \<Rightarrow> bool" where
  "in_progress objects k xs \<longleftrightarrow>
     length xs = length objects \<and>
     (\<forall>j < length objects. same_static (objects ! j) (xs ! j) \<and>
        (if j < k then position (xs ! j) = advance (objects ! j) else xs ! j = objects ! j))"

text \<open>The state of the store's list before iteration \<open>k\<close>.\<close>

definition store_tracks ::
  "SpaceTimeObject list \<Rightarrow> nat \<Rightarrow> SpaceTimeObject list \<Rightarrow> SpaceTimeObject list \<Rightarrow> bool" where
  "store_tracks objects k xs store \<longleftrightarrow>
     length store = length objects \<and>
     (\<forall>m < length objects. obj_id (store ! m) = obj_id (objects ! m) \<and>
        ((\<exists>i < k. store ! m = xs ! i) \<or> (k \<le> m \<and> store ! m = objects ! m)))"

text \<open>Objects whose position and mass are finite numbers, the mass above zero.\<close>

definition finite_position :: "SpaceTimeObject \<Rightarrow> bool" where
  "finite_position obj =
     (case position obj of (x, y, z) \<Rightarrow> is_finite x \<and> is_finite y \<and> is_finite z)"

definition positive_mass :: "SpaceTimeObject \<Rightarrow> bool" where
  "positive_mass obj \<longleftrightarrow> is_finite (mass obj) \<and> Fin 0 < mass obj"

text \<open>The height that one frame gives the vertex at \<open>(x, z)\<close>.\<close>

definition recomputed_height :: "SpaceTimeObject list \<Rightarrow> number \<Rightarrow> number \<Rightarrow> number" where
  "recomputed_height objects x z = deform objects x z (Fin 0)"

section \<open>Example stores\<close>

text \<open>
  An object on the x axis that moves along it: its id and type, its coordinate and velocity
  on the axis, its mass and its radius.
\<close>

definition body :: "string \<Rightarrow> ObjectType \<Rightarrow> real \<Rightarrow> real \<Rightarrow> real \<Rightarrow> real \<Rightarrow> SpaceTimeObject" where
  "body ident ty x vx m r =
     \<lparr>obj_id = ident, obj_type = ty, position = (Fin x, Fin 0, Fin 0),
      velocity = (Fin vx, Fin 0, Fin 0), mass = Fin m, radius = Fin r\<rparr>"

definition near_pair :: "SpaceTimeObject list" where
  "near_pair = [body ''p'' Planet 0 0 1 1, body ''h'' BlackHole 1 0 5 1]"

definition far_pair :: "SpaceTimeObject list" where
  "far_pair = [body ''p'' Planet 0 0 1 6, body ''h'' BlackHole 11 0 5 6]"

definition wanderer :: "SpaceTimeObject list" where
  "wanderer = [body ''w'' Planet 15 30 1 1]"

definition still_pair :: "SpaceTimeObject list" where
  "still_pair = [body ''a'' Planet 0 0 1 0.1, body ''b'' Planet 1 0 1 0.1]"



definition head_on :: "SpaceTimeObject list" where
  "head_on = [body ''a'' Planet 0 1 1 1, body ''b'' Planet 1 (- 1) 1 1]"

definition triple :: "SpaceTimeObject list" where
  "triple = [body ''a'' Planet 0 0 1 0.1, body ''b'' Planet 1 0 1 0.1, body ''c'' Planet (- 1) 0 1 0.1]"

definition coincident :: "SpaceTimeObject list" where
  "coincident = [body ''a'' Planet 0 0 1 0.5, body ''b'' Planet 0 0 1 0.5]"


definition rock :: SpaceTimeObject where
  "rock = body ''r'' Planet 0 0 1 1"

section \<open>Finite numbers\<close>

lemma is_finite_iff: "is_finite x \<longleftrightarrow> (\<exists>a. x = Fin a)"
  by (cases x) simp_all


lemma Math_sqrt_not_negative: "\<not> Math_sqrt a < Fin 0"
  by (cases a) simp_all

lemma sqrt_121: "sqrt 121 = 11"
  by (rule real_sqrt_unique) (simp_all add: power2_eq_square)

lemma sqrt_225: "sqrt 225 = 15"
  by (rule real_sqrt_unique) (simp_all add: power2_eq_square)

lemma sqrt_9801: "sqrt (9801 / 10000) = 99 / 100"
  by (rule real_sqrt_unique) (simp_all add: power2_eq_square)

section \<open>The store\<close>

lemma remove_all_eq:
  "foldl (\<lambda>s ident. removeObject ident s) store marks
     = filter (\<lambda>obj. obj_id obj \<notin> set marks) store"
  by (induction marks arbitrary: store) (auto simp: removeObject_def intro: filter_cong)

text \<open>
  Claim C9. For an id that no object of the store has, \<open>removeObject\<close> with that id and
  \<open>updateObject\<close> with an object of that id return the list unchanged.
\<close>

theorem unknown_id_noop:
  assumes "ident \<notin> obj_id ` set objects" and "obj_id object = ident"
  shows "removeObject ident objects = objects \<and> updateObject object objects = objects"
proof -
  have "\<forall>obj \<in> set objects. obj_id obj \<noteq> ident"
    using assms(1) by auto
  then show ?thesis
    using assms(2) by (simp add: removeObject_def updateObject_def map_idI)
qed

theorem unknown_id_noop_witness:
  "''z'' \<notin> obj_id ` set near_pair \<and> removeObject ''z'' near_pair = near_pair \<and>
   updateObject (body ''z'' Planet 3 0 1 1) near_pair = near_pair"
proof -
  have h: "''z'' \<notin> obj_id ` set near_pair" by (simp add: near_pair_def body_def)
  have i: "obj_id (body ''z'' Planet 3 0 1 1) = ''z''" by (simp add: body_def)
  note r = unknown_id_noop[OF h i]
  show ?thesis using h r by simp
qed

section \<open>The loops of the physics frame\<close>

lemma interact_static:
  "interact p v other obj = (obj', stop) \<Longrightarrow> same_static obj obj' \<and> position obj' = position obj"
  by (auto simp: interact_def same_static_def Let_def split: if_splits prod.splits)

lemma interact_stop:
  "snd (interact p v other obj) \<longleftrightarrow> overlaps p (radius obj) (position other) (radius other) \<and> obj_type other = BlackHole"
  by (auto simp: interact_def overlaps_def Let_def split: if_splits prod.splits)

lemma gravity_loop_static:
  "gravity_loop i p v others obj marks = (obj', marks')
     \<Longrightarrow> same_static obj obj' \<and> position obj' = position obj"
proof (induction others arbitrary: obj)
  case Nil
  then show ?case by (simp add: same_static_def)
next
  case (Cons a others)
  obtain j other where a: "a = (j, other)" by (cases a)
  obtain o1 stop where i: "interact p v other obj = (o1, stop)" by (cases "interact p v other obj")
  from interact_static[OF i] have s1: "same_static obj o1" "position o1 = position obj" by simp_all
  show ?case
  proof (cases "i = j")
    case True
    with Cons a show ?thesis by simp
  next
    case False
    show ?thesis
    proof (cases stop)
      case True
      with Cons.prems a i False have "obj' = o1" by simp
      with s1 show ?thesis by simp
    next
      case nostop: False
      with Cons.prems a i False have "gravity_loop i p v others o1 marks = (obj', marks')" by simp
      from Cons.IH[OF this] s1 show ?thesis by (simp add: same_static_def)
    qed
  qed
qed

lemma gravity_loop_marks:
  "snd (gravity_loop i p v others obj marks)
     = marks @ (if absorbing i p (radius obj) others then [obj_id obj] else [])"
proof (induction others arbitrary: obj)
  case Nil
  then show ?case by (simp add: absorbing_def)
next
  case (Cons a others)
  obtain j other where a: "a = (j, other)" by (cases a)
  obtain o1 stop where i: "interact p v other obj = (o1, stop)" by (cases "interact p v other obj")
  from interact_static[OF i] have s1: "radius o1 = radius obj" "obj_id o1 = obj_id obj"
    by (simp_all add: same_static_def)
  from interact_stop[of p v other obj] i
  have st: "stop \<longleftrightarrow> overlaps p (radius obj) (position other) (radius other) \<and> obj_type other = BlackHole" by simp
  show ?case
  proof (cases "i = j")
    case True
    with Cons a show ?thesis by (simp add: absorbing_def)
  next
    case False
    show ?thesis
    proof (cases stop)
      case True
      with a i False st s1 show ?thesis by (auto simp: absorbing_def)
    next
      case nostop: False
      with a i False have "snd (gravity_loop i p v (a # others) obj marks)
          = snd (gravity_loop i p v others o1 marks)" by simp
      also have "\<dots> = marks @ (if absorbing i p (radius obj) others then [obj_id obj] else [])"
        using Cons.IH[of o1] s1 by simp
      also have "absorbing i p (radius obj) others \<longleftrightarrow> absorbing i p (radius obj) (a # others)"
        using a nostop st by (auto simp: absorbing_def)
      finally show ?thesis .
    qed
  qed
qed

lemma body_step_obj:
  assumes "body_step i xs marks = (obj', marks')"
  shows "same_static (xs ! i) obj' \<and> position obj' = advance (xs ! i)"
proof -
  obtain o2 m2 where g: "gravity_loop i (position (xs ! i)) (velocity (xs ! i)) (enumerate 0 xs)
      ((xs ! i)\<lparr>position := advance (xs ! i)\<rparr>) marks = (o2, m2)"
    by (cases "gravity_loop i (position (xs ! i)) (velocity (xs ! i)) (enumerate 0 xs)
      ((xs ! i)\<lparr>position := advance (xs ! i)\<rparr>) marks")
  from assms g have "obj' = o2" by (simp add: body_step_def Let_def)
  with gravity_loop_static[OF g] show ?thesis by (simp add: same_static_def)
qed

lemma absorbing_enumerate:
  "absorbing i p r (enumerate 0 xs) \<longleftrightarrow>
     (\<exists>j < length xs. j \<noteq> i \<and> obj_type (xs ! j) = BlackHole \<and>
        overlaps p r (position (xs ! j)) (radius (xs ! j)))"
  by (auto simp: absorbing_def in_set_enumerate_eq)

lemma body_step_marks:
  "snd (body_step i xs marks)
     = marks @ (if absorbing i (position (xs ! i)) (radius (xs ! i)) (enumerate 0 xs)
                then [obj_id (xs ! i)] else [])
             @ (if out_of_bounds (position (xs ! i)) then [obj_id (xs ! i)] else [])"
proof -
  let ?g = "gravity_loop i (position (xs ! i)) (velocity (xs ! i)) (enumerate 0 xs)
      ((xs ! i)\<lparr>position := advance (xs ! i)\<rparr>) marks"
  obtain o2 m2 where g: "?g = (o2, m2)" by (cases ?g)
  from gravity_loop_static[OF g] have id: "obj_id o2 = obj_id (xs ! i)" by (simp add: same_static_def)
  from gravity_loop_marks[of i "position (xs ! i)" "velocity (xs ! i)" "enumerate 0 xs"
      "(xs ! i)\<lparr>position := advance (xs ! i)\<rparr>" marks] g
  have m2: "m2 = marks @ (if absorbing i (position (xs ! i)) (radius (xs ! i)) (enumerate 0 xs)
                then [obj_id (xs ! i)] else [])" by simp
  show ?thesis using g id m2 by (simp add: body_step_def Let_def)
qed





lemma in_progress_length: "in_progress objects k xs \<Longrightarrow> length xs = length objects"
  by (simp add: in_progress_def)

lemma in_progress_current:
  "in_progress objects k xs \<Longrightarrow> k < length objects \<Longrightarrow> xs ! k = objects ! k"
  by (simp add: in_progress_def)

lemma in_progress_static:
  "in_progress objects k xs \<Longrightarrow> j < length objects \<Longrightarrow> same_static (objects ! j) (xs ! j)"
  by (simp add: in_progress_def)

lemma in_progress_position:
  assumes "in_progress objects k xs" and "j < length objects"
  shows "position (xs ! j) = position_seen k j objects"
proof (cases "j < k")
  case True
  with assms show ?thesis by (simp add: in_progress_def position_seen_def)
next
  case False
  with assms have "xs ! j = objects ! j" by (simp add: in_progress_def)
  with False show ?thesis by (simp add: position_seen_def)
qed

lemma in_progress_absorbing:
  assumes "in_progress objects k xs" and "k < length objects"
  shows "absorbing k (position (xs ! k)) (radius (xs ! k)) (enumerate 0 xs) \<longleftrightarrow> absorbed k objects"
proof -
  note len = in_progress_length[OF assms(1)]
  note k = in_progress_current[OF assms]
  have other: "obj_type (xs ! j) = obj_type (objects ! j) \<and> radius (xs ! j) = radius (objects ! j)
      \<and> position (xs ! j) = position_seen k j objects" if "j < length objects" for j
    using in_progress_static[OF assms(1) that] in_progress_position[OF assms(1) that]
    by (simp add: same_static_def)
  show ?thesis
    unfolding absorbing_enumerate absorbed_def len k using other by auto
qed

lemma in_progress_marks:
  assumes "in_progress objects k xs" and "k < length objects"
  shows "snd (body_step k xs marks) = marks @ marks_of objects k"
proof -
  note k = in_progress_current[OF assms]
  show ?thesis
    using in_progress_absorbing[OF assms] by (simp add: body_step_marks marks_of_def k)
qed

lemma in_progress_step:
  assumes "in_progress objects k xs" and "k < length objects"
    and "body_step k xs marks = (obj, marks')"
  shows "in_progress objects (Suc k) (xs[k := obj])"
proof -
  note len = in_progress_length[OF assms(1)]
  note k = in_progress_current[OF assms(1,2)]
  from body_step_obj[OF assms(3)] k
  have o: "same_static (objects ! k) obj" "position obj = advance (objects ! k)" by simp_all
  show ?thesis
    unfolding in_progress_def
  proof (intro conjI allI impI)
    show "length (xs[k := obj]) = length objects" using len by simp
  next
    fix j assume j: "j < length objects"
    show "same_static (objects ! j) (xs[k := obj] ! j)"
      using in_progress_static[OF assms(1) j] j o len by (cases "j = k") simp_all
    show "if j < Suc k then position (xs[k := obj] ! j) = advance (objects ! j)
          else xs[k := obj] ! j = objects ! j"
    proof (cases "j = k")
      case True
      with o len assms(2) show ?thesis by simp
    next
      case False
      then have same: "xs[k := obj] ! j = xs ! j" by simp
      show ?thesis
      proof (cases "j < k")
        case True
        with assms(1) j have "position (xs ! j) = advance (objects ! j)"
          by (simp add: in_progress_def)
        with True show ?thesis unfolding same by simp
      next
        case notless: False
        with assms(1) j have "xs ! j = objects ! j" by (simp add: in_progress_def)
        with notless False show ?thesis unfolding same by simp
      qed
    qed
  qed
qed

lemma store_tracks_step:
  assumes "store_tracks objects k xs store" and "k < length objects"
    and "length xs = length objects" and "obj_id obj = obj_id (objects ! k)"
  shows "store_tracks objects (Suc k) (xs[k := obj]) (updateObject obj store)"
  unfolding store_tracks_def
proof (intro conjI allI impI)
  show "length (updateObject obj store) = length objects"
    using assms(1) by (simp add: store_tracks_def updateObject_def)
next
  fix m assume m: "m < length objects"
  have lm: "m < length store" using assms(1) m by (simp add: store_tracks_def)
  have idm: "obj_id (store ! m) = obj_id (objects ! m)" using assms(1) m by (simp add: store_tracks_def)
  show "obj_id (updateObject obj store ! m) = obj_id (objects ! m)"
    using lm idm by (simp add: updateObject_def)
  show "(\<exists>i<Suc k. updateObject obj store ! m = xs[k := obj] ! i) \<or>
        Suc k \<le> m \<and> updateObject obj store ! m = objects ! m"
  proof (cases "obj_id (store ! m) = obj_id obj")
    case True
    then have "updateObject obj store ! m = xs[k := obj] ! k"
      using lm assms(2,3) by (simp add: updateObject_def)
    then show ?thesis by blast
  next
    case False
    then have same: "updateObject obj store ! m = store ! m"
      using lm by (simp add: updateObject_def)
    from assms(1) m consider i where "i < k" "store ! m = xs ! i" | "k \<le> m" "store ! m = objects ! m"
      by (auto simp: store_tracks_def)
    then show ?thesis
    proof cases
      case 1
      then have "i < Suc k \<and> updateObject obj store ! m = xs[k := obj] ! i"
        using same by simp
      then show ?thesis by blast
    next
      case 2
      with False idm assms(4) have "m \<noteq> k" by auto
      with 2 same show ?thesis by simp
    qed
  qed
qed

lemma frame_loop_inv:
  assumes "in_progress objects k xs" and "store_tracks objects k xs store"
    and "k \<le> length objects"
    and "frame_loop [k..<length objects] xs store marks = (xs', store', marks')"
  shows "in_progress objects (length objects) xs' \<and>
         store_tracks objects (length objects) xs' store' \<and>
         marks' = marks @ concat (map (marks_of objects) [k..<length objects])"
  using assms
proof (induction "length objects - k" arbitrary: k xs store marks)
  case 0
  have k: "k = length objects" using "0.hyps" "0.prems"(3) by simp
  from "0.prems"(4) have "xs' = xs" "store' = store" "marks' = marks"
    unfolding k by simp_all
  with "0.prems"(1,2) show ?case unfolding k by simp
next
  case (Suc d)
  have k: "k < length objects" using Suc.hyps(2) by simp
  obtain obj m1 where b: "body_step k xs marks = (obj, m1)" by (cases "body_step k xs marks")
  have m1: "m1 = marks @ marks_of objects k"
    using in_progress_marks[OF Suc.prems(1) k, of marks] b by simp
  have ip: "in_progress objects (Suc k) (xs[k := obj])"
    by (rule in_progress_step[OF Suc.prems(1) k b])
  note len = in_progress_length[OF Suc.prems(1)]
  note xk = in_progress_current[OF Suc.prems(1) k]
  have id: "obj_id obj = obj_id (objects ! k)"
    using body_step_obj[OF b] unfolding xk same_static_def by simp
  have st: "store_tracks objects (Suc k) (xs[k := obj]) (updateObject obj store)"
    by (rule store_tracks_step[OF Suc.prems(2) k len id])
  have up: "[k..<length objects] = k # [Suc k..<length objects]"
    using k by (rule upt_conv_Cons)
  have rest: "frame_loop [Suc k..<length objects] (xs[k := obj]) (updateObject obj store) m1
      = (xs', store', marks')"
    using Suc.prems(4) b unfolding up by simp
  have d: "d = length objects - Suc k" using Suc.hyps(2) by simp
  have sk: "Suc k \<le> length objects" using k by simp
  from Suc.hyps(1)[OF d ip st sk rest]
  have "in_progress objects (length objects) xs'"
    and "store_tracks objects (length objects) xs' store'"
    and "marks' = m1 @ concat (map (marks_of objects) [Suc k..<length objects])"
    by blast+
  then show ?case unfolding up m1 by simp
qed

section \<open>The store after a frame\<close>

lemma in_progress_start: "in_progress objects 0 objects"
  by (simp add: in_progress_def same_static_def)

lemma store_tracks_start: "store_tracks objects 0 objects objects"
  by (simp add: store_tracks_def)

lemma frame_loop_result:
  assumes "frame_loop [0..<length objects] objects objects [] = (xs', store', marks')"
  shows "in_progress objects (length objects) xs'"
    and "store_tracks objects (length objects) xs' store'"
    and "marks' = concat (map (marks_of objects) [0..<length objects])"
  using frame_loop_inv[OF in_progress_start store_tracks_start _ assms] by simp_all

lemma marks_iff:
  "x \<in> set (concat (map (marks_of objects) [0..<length objects])) \<longleftrightarrow>
     (\<exists>i < length objects. obj_id (objects ! i) = x \<and>
        (absorbed i objects \<or> out_of_bounds (position (objects ! i))))"
  by (auto simp: marks_of_def split: if_splits)

lemma physics_frame_ids:
  "map obj_id (physics_frame objects)
     = filter (\<lambda>x. x \<notin> set (concat (map (marks_of objects) [0..<length objects])))
         (map obj_id objects)"
proof -
  obtain xs' store' marks' where f:
    "frame_loop [0..<length objects] objects objects [] = (xs', store', marks')"
    by (cases "frame_loop [0..<length objects] objects objects []")
  note r = frame_loop_result[OF f]
  have ids: "map obj_id store' = map obj_id objects"
    using r(2) by (intro nth_equalityI) (simp_all add: store_tracks_def)
  have "physics_frame objects = filter (\<lambda>obj. obj_id obj \<notin> set marks') store'"
    by (simp add: physics_frame_def f remove_all_eq)
  then have "map obj_id (physics_frame objects)
      = filter (\<lambda>x. x \<notin> set marks') (map obj_id store')"
    by (simp add: filter_map comp_def)
  then show ?thesis unfolding ids r(3) .
qed

lemma physics_frame_member:
  assumes "b \<in> set (physics_frame objects)"
  shows "\<exists>i < length objects. same_static (objects ! i) b \<and> position b = advance (objects ! i) \<and>
           \<not> absorbed i objects \<and> \<not> out_of_bounds (position (objects ! i))"
proof -
  obtain xs' store' marks' where f:
    "frame_loop [0..<length objects] objects objects [] = (xs', store', marks')"
    by (cases "frame_loop [0..<length objects] objects objects []")
  note r = frame_loop_result[OF f]
  have "physics_frame objects = filter (\<lambda>obj. obj_id obj \<notin> set marks') store'"
    by (simp add: physics_frame_def f remove_all_eq)
  with assms have b: "b \<in> set store'" "obj_id b \<notin> set marks'" by simp_all
  have len: "length store' = length objects" using r(2) by (simp add: store_tracks_def)
  from b(1) obtain m where m: "m < length objects" "b = store' ! m"
    unfolding in_set_conv_nth len by blast
  from r(2) m obtain i where i: "i < length objects" "b = xs' ! i"
    unfolding store_tracks_def by auto
  have st: "same_static (objects ! i) b"
    using in_progress_static[OF r(1) i(1)] i(2) by simp
  have pv: "position b = advance (objects ! i)"
    using r(1) i by (simp add: in_progress_def)
  have "obj_id (objects ! i) \<notin> set (concat (map (marks_of objects) [0..<length objects]))"
    using b(2) st unfolding r(3) same_static_def by simp
  then have "\<not> absorbed i objects \<and> \<not> out_of_bounds (position (objects ! i))"
    unfolding marks_iff using i(1) by blast
  with i(1) st pv show ?thesis by blast
qed

lemma marked_removed:
  assumes "i < length objects"
    and "absorbed i objects \<or> out_of_bounds (position (objects ! i))"
  shows "obj_id (objects ! i) \<notin> obj_id ` set (physics_frame objects)"
proof -
  have "obj_id (objects ! i) \<in> set (concat (map (marks_of objects) [0..<length objects]))"
    unfolding marks_iff using assms by blast
  then have "obj_id (objects ! i) \<notin> set (map obj_id (physics_frame objects))"
    unfolding physics_frame_ids by simp
  then show ?thesis by simp
qed

lemma unmarked_kept:
  assumes "distinct (map obj_id objects)" and "i < length objects"
    and "\<not> absorbed i objects" and "\<not> out_of_bounds (position (objects ! i))"
  shows "obj_id (objects ! i) \<in> obj_id ` set (physics_frame objects)"
proof -
  have "obj_id (objects ! i) \<notin> set (concat (map (marks_of objects) [0..<length objects]))"
  proof
    assume "obj_id (objects ! i) \<in> set (concat (map (marks_of objects) [0..<length objects]))"
    then obtain k where k: "k < length objects" "obj_id (objects ! k) = obj_id (objects ! i)"
      "absorbed k objects \<or> out_of_bounds (position (objects ! k))"
      unfolding marks_iff by blast
    from k(1,2) assms(1,2) have "k = i"
      by (auto simp: distinct_conv_nth)
    with k(3) assms(3,4) show False by simp
  qed
  moreover have "obj_id (objects ! i) \<in> set (map obj_id objects)"
    using assms(2) by simp
  ultimately have "obj_id (objects ! i) \<in> set (map obj_id (physics_frame objects))"
    unfolding physics_frame_ids by simp
  then show ?thesis by simp
qed

lemma absorbedI:
  assumes "j < length objects" and "j \<noteq> i" and "obj_type (objects ! j) = BlackHole"
    and "\<not> distance_to (position (objects ! i)) (position_seen i j objects) > Fin 10"
    and "distance_to (position (objects ! i)) (position_seen i j objects)
           < radius (objects ! i) + radius (objects ! j)"
  shows "absorbed i objects"
  unfolding absorbed_def overlaps_def Let_def using assms by blast

section \<open>Removal and movement\<close>

lemmas frame_eval = physics_frame_def body_step_def advance_def interact_def distance_to_def
  pull_def elastic_def out_of_bounds_def gridSize_def updateObject_def removeObject_def
  minus_number_def enumerate_eq_zip Let_def body_def

text \<open>
  Claim C3, as amended. A planet that meets a black hole in its own iteration, at a
  distance below the sum of their radii and not above the cutoff of 10, is gone from the
  store after the frame: no object of its id is left. The distance is the one the loop
  computes, from the planet's position at the start of its iteration to the position of
  the black hole at that moment. Every object left in the store has the type, mass and
  radius of an object of its id at the start of the frame.
\<close>

theorem black_hole_absorbs_planet:
  assumes "i < length objects" and "j < length objects"
    and "obj_type (objects ! i) = Planet" and "obj_type (objects ! j) = BlackHole"
    and "distance_to (position (objects ! i)) (position_seen i j objects)
           < radius (objects ! i) + radius (objects ! j)"
    and "\<not> distance_to (position (objects ! i)) (position_seen i j objects) > Fin 10"
  shows "obj_id (objects ! i) \<notin> obj_id ` set (physics_frame objects) \<and>
         (\<forall>b \<in> set (physics_frame objects). \<exists>a \<in> set objects.
            obj_id a = obj_id b \<and> obj_type a = obj_type b \<and>
            mass a = mass b \<and> radius a = radius b)"
proof
  have "j \<noteq> i" using assms(3,4) by auto
  from absorbedI[OF assms(2) this assms(4) assms(6) assms(5)]
  show "obj_id (objects ! i) \<notin> obj_id ` set (physics_frame objects)"
    using marked_removed[OF assms(1)] by blast
next
  show "\<forall>b \<in> set (physics_frame objects). \<exists>a \<in> set objects.
            obj_id a = obj_id b \<and> obj_type a = obj_type b \<and>
            mass a = mass b \<and> radius a = radius b"
  proof
    fix b assume "b \<in> set (physics_frame objects)"
    from physics_frame_member[OF this] obtain k where
      k: "k < length objects" "same_static (objects ! k) b" by blast
    then have "objects ! k \<in> set objects" by simp
    with k(2) show "\<exists>a \<in> set objects.
            obj_id a = obj_id b \<and> obj_type a = obj_type b \<and>
            mass a = mass b \<and> radius a = radius b"
      unfolding same_static_def by blast
  qed
qed

lemma near_pair_frame:
  "physics_frame near_pair
     = [(body ''h'' BlackHole 1 0 5 1)\<lparr>velocity := (Fin (- 0.1), Fin 0, Fin 0)\<rparr>]"
  by (simp add: near_pair_def frame_eval)

theorem black_hole_absorbs_planet_witness:
  "obj_type (near_pair ! 0) = Planet \<and> obj_type (near_pair ! 1) = BlackHole \<and>
   distance_to (position (near_pair ! 0)) (position_seen 0 1 near_pair) = Fin 1 \<and>
   radius (near_pair ! 0) + radius (near_pair ! 1) = Fin 2 \<and>
   obj_id (near_pair ! 0) \<notin> obj_id ` set (physics_frame near_pair) \<and>
   (body ''h'' BlackHole 1 0 5 1)\<lparr>velocity := (Fin (- 0.1), Fin 0, Fin 0)\<rparr>
     \<in> set (physics_frame near_pair) \<and>
   (\<exists>a \<in> set near_pair.
      obj_id a = obj_id ((body ''h'' BlackHole 1 0 5 1)\<lparr>velocity := (Fin (- 0.1), Fin 0, Fin 0)\<rparr>) \<and>
      obj_type a = obj_type ((body ''h'' BlackHole 1 0 5 1)\<lparr>velocity := (Fin (- 0.1), Fin 0, Fin 0)\<rparr>) \<and>
      mass a = mass ((body ''h'' BlackHole 1 0 5 1)\<lparr>velocity := (Fin (- 0.1), Fin 0, Fin 0)\<rparr>) \<and>
      radius a = radius ((body ''h'' BlackHole 1 0 5 1)\<lparr>velocity := (Fin (- 0.1), Fin 0, Fin 0)\<rparr>))"
proof -
  have l: "0 < length near_pair" "1 < length near_pair" by (simp_all add: near_pair_def)
  have t: "obj_type (near_pair ! 0) = Planet" "obj_type (near_pair ! 1) = BlackHole"
    by (simp_all add: near_pair_def body_def)
  have d: "distance_to (position (near_pair ! 0)) (position_seen 0 1 near_pair) = Fin 1"
    by (simp add: near_pair_def body_def position_seen_def distance_to_def minus_number_def)
  have r: "radius (near_pair ! 0) + radius (near_pair ! 1) = Fin 2"
    by (simp add: near_pair_def body_def)
  have c: "distance_to (position (near_pair ! 0)) (position_seen 0 1 near_pair)
      < radius (near_pair ! 0) + radius (near_pair ! 1)"
    "\<not> distance_to (position (near_pair ! 0)) (position_seen 0 1 near_pair) > Fin 10"
    unfolding d r by simp_all
  have m: "(body ''h'' BlackHole 1 0 5 1)\<lparr>velocity := (Fin (- 0.1), Fin 0, Fin 0)\<rparr>
      \<in> set (physics_frame near_pair)"
    unfolding near_pair_frame by simp
  note result = black_hole_absorbs_planet[OF l t c]
  from result have gone: "obj_id (near_pair ! 0) \<notin> obj_id ` set (physics_frame near_pair)"
    by (rule conjunct1)
  from result have "\<forall>b \<in> set (physics_frame near_pair). \<exists>a \<in> set near_pair.
      obj_id a = obj_id b \<and> obj_type a = obj_type b \<and> mass a = mass b \<and> radius a = radius b"
    by (rule conjunct2)
  from bspec[OF this m] t d r gone m show ?thesis by (intro conjI)
qed

theorem far_black_hole_counterexample:
  "obj_type (far_pair ! 0) = Planet \<and> obj_type (far_pair ! 1) = BlackHole \<and>
   distance_to (position (far_pair ! 0)) (position (far_pair ! 1))
     < radius (far_pair ! 0) + radius (far_pair ! 1) \<and>
   physics_frame far_pair = far_pair"
  by (simp add: far_pair_def frame_eval sqrt_121)

lemma out_of_bounds_finite:
  "out_of_bounds (Fin x, Fin y, Fin z) \<longleftrightarrow> \<bar>x\<bar> > 20 \<or> \<bar>z\<bar> > 20 \<or> y < - 10 \<or> y > 10"
  by (simp add: out_of_bounds_def gridSize_def)

text \<open>
  Claim C4, as amended. With distinct ids, an object is left in the store after the frame
  exactly when its position at the start of the frame is within the bounds and it has not
  met a black hole. The bounds test is \<open>out_of_bounds\<close>: \<open>\<bar>x\<bar> > 20\<close> or \<open>\<bar>z\<bar> > 20\<close> (the whole
  grid side on each axis), or \<open>y < -10\<close>, or \<open>y > 10\<close>. The velocity of the object does not
  enter.
\<close>

theorem kept_iff_in_bounds_and_not_absorbed:
  assumes "distinct (map obj_id objects)" and "i < length objects"
  shows "obj_id (objects ! i) \<in> obj_id ` set (physics_frame objects) \<longleftrightarrow>
           \<not> out_of_bounds (position (objects ! i)) \<and> \<not> absorbed i objects"
  using marked_removed[OF assms(2)] unmarked_kept[OF assms] by blast

theorem kept_iff_in_bounds_and_not_absorbed_witness:
  "distinct (map obj_id wanderer) \<and>
   position (wanderer ! 0) = (Fin 15, Fin 0, Fin 0) \<and> velocity (wanderer ! 0) = (Fin 30, Fin 0, Fin 0) \<and>
   \<not> out_of_bounds (position (wanderer ! 0)) \<and> \<not> absorbed 0 wanderer \<and>
   obj_id (wanderer ! 0) \<in> obj_id ` set (physics_frame wanderer)"
proof -
  have d: "distinct (map obj_id wanderer)" and l: "0 < length wanderer"
    by (simp_all add: wanderer_def)
  have p: "position (wanderer ! 0) = (Fin 15, Fin 0, Fin 0)"
    "velocity (wanderer ! 0) = (Fin 30, Fin 0, Fin 0)"
    by (simp_all add: wanderer_def body_def)
  have b: "\<not> out_of_bounds (position (wanderer ! 0))"
    unfolding p by (simp add: out_of_bounds_def gridSize_def)
  have a: "\<not> absorbed 0 wanderer"
    by (simp add: absorbed_def wanderer_def)
  from kept_iff_in_bounds_and_not_absorbed[OF d l] d p a b show ?thesis by blast
qed

theorem half_grid_side_counterexample:
  "position (wanderer ! 0) = (Fin 15, Fin 0, Fin 0) \<and>
   Math_sqrt (Fin 15 * Fin 15 + Fin 0 * Fin 0) > gridSize / Fin 2 \<and>
   map obj_id (physics_frame wanderer) = map obj_id wanderer"
  by (simp add: wanderer_def frame_eval sqrt_225)

lemma advance_components:
  assumes "position a = (px, py, pz)" and "velocity a = (vx, vy, vz)"
  shows "advance a = (px + vx * Fin 0.01, py + vy * Fin 0.01, pz + vz * Fin 0.01)"
  using assms by (simp add: advance_def)

text \<open>
  Claim C5, as amended. The position is advanced before the pulls are applied: every
  object left in the store after the frame has the position of an object of its id at the
  start of the frame plus 0.01 times the velocity which that object had at the start of
  the frame.
\<close>

theorem position_advances_by_old_velocity:
  assumes "b \<in> set (physics_frame objects)"
  shows "\<exists>a \<in> set objects. \<exists>px py pz vx vy vz.
           obj_id a = obj_id b \<and> position a = (px, py, pz) \<and> velocity a = (vx, vy, vz) \<and>
           position b = (px + vx * Fin 0.01, py + vy * Fin 0.01, pz + vz * Fin 0.01)"
proof -
  from physics_frame_member[OF assms] obtain i where
    i: "i < length objects" "same_static (objects ! i) b" "position b = advance (objects ! i)"
    by blast
  obtain px py pz where p: "position (objects ! i) = (px, py, pz)"
    by (rule prod_cases3)
  obtain vx vy vz where v: "velocity (objects ! i) = (vx, vy, vz)"
    by (rule prod_cases3)
  have m: "objects ! i \<in> set objects" using i(1) by simp
  have id: "obj_id (objects ! i) = obj_id b" using i(2) by (simp add: same_static_def)
  have "position b = (px + vx * Fin 0.01, py + vy * Fin 0.01, pz + vz * Fin 0.01)"
    unfolding i(3) by (rule advance_components[OF p v])
  with id p v have "\<exists>px py pz vx vy vz.
           obj_id (objects ! i) = obj_id b \<and> position (objects ! i) = (px, py, pz) \<and>
           velocity (objects ! i) = (vx, vy, vz) \<and>
           position b = (px + vx * Fin 0.01, py + vy * Fin 0.01, pz + vz * Fin 0.01)"
    by (intro exI conjI)
  with m show ?thesis by (rule rev_bexI)
qed

lemma still_pair_frame:
  "physics_frame still_pair
     = [(body ''a'' Planet 0 0 1 0.1)\<lparr>velocity := (Fin 0.1, Fin 0, Fin 0)\<rparr>,
        (body ''b'' Planet 1 0 1 0.1)\<lparr>velocity := (Fin (- 0.1), Fin 0, Fin 0)\<rparr>]"
  by (simp add: still_pair_def frame_eval)

theorem position_advances_by_old_velocity_witness:
  "(body ''a'' Planet 0 0 1 0.1)\<lparr>velocity := (Fin 0.1, Fin 0, Fin 0)\<rparr> \<in> set (physics_frame still_pair) \<and>
   (\<exists>a \<in> set still_pair. \<exists>px py pz vx vy vz.
      obj_id a = obj_id ((body ''a'' Planet 0 0 1 0.1)\<lparr>velocity := (Fin 0.1, Fin 0, Fin 0)\<rparr>) \<and>
      position a = (px, py, pz) \<and> velocity a = (vx, vy, vz) \<and>
      position ((body ''a'' Planet 0 0 1 0.1)\<lparr>velocity := (Fin 0.1, Fin 0, Fin 0)\<rparr>)
        = (px + vx * Fin 0.01, py + vy * Fin 0.01, pz + vz * Fin 0.01))"
proof (rule conjI)
  show m: "(body ''a'' Planet 0 0 1 0.1)\<lparr>velocity := (Fin 0.1, Fin 0, Fin 0)\<rparr>
      \<in> set (physics_frame still_pair)"
    unfolding still_pair_frame by simp
  show "\<exists>a \<in> set still_pair. \<exists>px py pz vx vy vz.
      obj_id a = obj_id ((body ''a'' Planet 0 0 1 0.1)\<lparr>velocity := (Fin 0.1, Fin 0, Fin 0)\<rparr>) \<and>
      position a = (px, py, pz) \<and> velocity a = (vx, vy, vz) \<and>
      position ((body ''a'' Planet 0 0 1 0.1)\<lparr>velocity := (Fin 0.1, Fin 0, Fin 0)\<rparr>)
        = (px + vx * Fin 0.01, py + vy * Fin 0.01, pz + vz * Fin 0.01)"
    by (rule position_advances_by_old_velocity[OF m])
qed

theorem new_velocity_position_counterexample:
  "map position still_pair = [(Fin 0, Fin 0, Fin 0), (Fin 1, Fin 0, Fin 0)] \<and>
   map position (physics_frame still_pair) = [(Fin 0, Fin 0, Fin 0), (Fin 1, Fin 0, Fin 0)] \<and>
   map velocity (physics_frame still_pair)
     = [(Fin 0.1, Fin 0, Fin 0), (Fin (- 0.1), Fin 0, Fin 0)] \<and>
   (Fin 0, Fin 0, Fin 0)
     \<noteq> (Fin 0 + Fin 0.1 * Fin 0.01, Fin 0 + Fin 0 * Fin 0.01, Fin 0 + Fin 0 * Fin 0.01)"
  unfolding still_pair_frame by (simp add: still_pair_def body_def)




section \<open>Pulls and collisions\<close>

text \<open>
  Claim C1 does not hold of the code. Two planets of mass 1 and radius 1 meet head on with
  velocities \<open>(1, 0, 0)\<close> and \<open>(-1, 0, 0)\<close>: the total momentum is zero. After the frame
  both have the velocity \<open>(-1, 0, 0)\<close>: the first iteration gives the first planet the
  velocity of the second, and the second iteration reads that new velocity.
\<close>

theorem head_on_planets_frame:
  "map obj_type head_on = [Planet, Planet] \<and>
   map mass head_on = [Fin 1, Fin 1] \<and>
   map velocity head_on = [(Fin 1, Fin 0, Fin 0), (Fin (- 1), Fin 0, Fin 0)] \<and>
   distance_to (position (head_on ! 0)) (position (head_on ! 1))
     < radius (head_on ! 0) + radius (head_on ! 1) \<and>
   map velocity (physics_frame head_on) = [(Fin (- 1), Fin 0, Fin 0), (Fin (- 1), Fin 0, Fin 0)]"
  by (simp add: head_on_def frame_eval sqrt_9801)

text \<open>
  Claim C2 does not hold of the code. An object at rest at the origin has one object at
  \<open>x = 1\<close> and one at \<open>x = -1\<close>, both of mass 1 and within the cutoff; their pulls are
  \<open>(0.1, 0, 0)\<close> and \<open>(-0.1, 0, 0)\<close> and add up to zero. After the frame the velocity of the
  first object is the second pull alone: every pass of the inner loop assigns the velocity
  read before the loop plus its own pull.
\<close>

theorem last_pull_only_frame:
  "pull (position (triple ! 0)) (triple ! 1) = (Fin 0.1, Fin 0, Fin 0) \<and>
   pull (position (triple ! 0)) (triple ! 2) = (Fin (- 0.1), Fin 0, Fin 0) \<and>
   map velocity triple = [(Fin 0, Fin 0, Fin 0), (Fin 0, Fin 0, Fin 0), (Fin 0, Fin 0, Fin 0)] \<and>
   map velocity (physics_frame triple)
     = [(Fin (- 0.1), Fin 0, Fin 0), (Fin (- 0.025), Fin 0, Fin 0), (Fin 0.025, Fin 0, Fin 0)]"
  by (simp add: triple_def frame_eval)

text \<open>
  Claim C8 does not hold of the code. Two objects at the same position are at distance 0;
  the pull divides by that distance and by its square, no floor is applied, and the
  frame leaves both velocities at \<^verbatim>\<open>NaN\<close>.
\<close>

theorem coincident_objects_frame:
  "distance_to (position (coincident ! 0)) (position (coincident ! 1)) = Fin 0 \<and>
   pull (position (coincident ! 0)) (coincident ! 1) = (NaN, NaN, NaN) \<and>
   map velocity (physics_frame coincident) = [(NaN, NaN, NaN), (NaN, NaN, NaN)]"
  by (simp add: coincident_def frame_eval)

section \<open>The heights of the fabric\<close>

lemma finite_positionE:
  assumes "finite_position obj"
  obtains a b c where "position obj = (Fin a, Fin b, Fin c)"
  using assms unfolding finite_position_def is_finite_iff
  by (cases "position obj") auto

lemma positive_massE:
  assumes "positive_mass obj"
  obtains m where "mass obj = Fin m" and "0 < m"
  using assms unfolding positive_mass_def is_finite_iff by auto

lemma horizontal_distance_finite:
  assumes "position obj = (Fin a, Fin b, Fin c)"
  shows "horizontal_distance (Fin x) (Fin z) obj
           = Fin (sqrt ((x - a) * (x - a) + (z - c) * (z - c)))"
proof -
  have "\<not> (x - a) * (x - a) + (z - c) * (z - c) < 0"
    by (simp add: not_less)
  then show ?thesis
    using assms by (simp add: horizontal_distance_def minus_number_def)
qed

lemma deform_Cons_finite:
  assumes "horizontal_distance (Fin x) (Fin z) obj = Fin d" and "0 \<le> d"
    and "mass obj = Fin m"
  shows "deform (obj # rest) (Fin x) (Fin z) (Fin h)
           = (if d > m * 4 then deform rest (Fin x) (Fin z) (Fin h)
              else deform rest (Fin x) (Fin z) (Fin (h - m * 2 / (d + 0.2))))"
proof -
  have "d + 0.2 \<noteq> 0" using assms(2) by simp
  then show ?thesis
    using assms(1,3) by (simp add: minus_number_def)
qed

lemma deform_finite_le:
  assumes "\<forall>obj \<in> set objects. finite_position obj \<and> positive_mass obj"
  shows "\<exists>h'. deform objects (Fin x) (Fin z) (Fin h) = Fin h' \<and> h' \<le> h"
  using assms
proof (induction objects arbitrary: h)
  case Nil
  then show ?case by simp
next
  case (Cons obj rest)
  from Cons.prems have fp: "finite_position obj" and pm: "positive_mass obj"
    and r: "\<forall>obj \<in> set rest. finite_position obj \<and> positive_mass obj" by simp_all
  from fp obtain a b c where p: "position obj = (Fin a, Fin b, Fin c)" by (rule finite_positionE)
  from pm obtain m where m: "mass obj = Fin m" "0 < m" by (rule positive_massE)
  define d where "d = sqrt ((x - a) * (x - a) + (z - c) * (z - c))"
  have d: "horizontal_distance (Fin x) (Fin z) obj = Fin d" "0 \<le> d"
    unfolding d_def by (simp_all add: horizontal_distance_finite[OF p])
  note step = deform_Cons_finite[OF d m(1), of rest h]
  show ?case
  proof (cases "d > m * 4")
    case True
    with step Cons.IH[OF r, of h] show ?thesis by simp
  next
    case False
    have pos: "0 < m * 2 / (d + 0.2)" using m(2) d(2) by simp
    from Cons.IH[OF r, of "h - m * 2 / (d + 0.2)"] obtain h' where
      h': "deform rest (Fin x) (Fin z) (Fin (h - m * 2 / (d + 0.2))) = Fin h'"
          "h' \<le> h - m * 2 / (d + 0.2)" by blast
    from h'(2) pos have "h' \<le> h" by simp
    with step False h'(1) show ?thesis by simp
  qed
qed

lemma deformation_frame_vertex:
  assumes "(x, y, z) \<in> set (fst (deformation_frame objects positions gridPositions))
             \<union> set (snd (deformation_frame objects positions gridPositions))"
  shows "y = recomputed_height objects x z"
  using assms
  by (auto simp: deformation_frame_def apply_deformation_def reset_positions_def
      recomputed_height_def)

lemma deformation_not_negative:
  assumes "Fin 0 < m" and "\<not> d < Fin 0"
  shows "\<not> (m * Fin 2.0) / (d + Fin 0.2) < Fin 0"
  using assms by (cases m; cases d) (auto simp: zero_le_divide_iff not_less)

lemma subtract_not_positive:
  assumes "\<not> Fin 0 < y" and "\<not> f < Fin 0"
  shows "\<not> Fin 0 < y - f"
  using assms by (cases y; cases f) (auto simp: minus_number_def)

lemma deform_not_positive:
  assumes "\<forall>obj \<in> set objects. Fin 0 < mass obj" and "\<not> Fin 0 < y"
  shows "\<not> Fin 0 < deform objects x z y"
  using assms
proof (induction objects arbitrary: y)
  case Nil
  then show ?case by simp
next
  case (Cons obj rest)
  from Cons.prems(1) have m: "Fin 0 < mass obj" and r: "\<forall>obj \<in> set rest. Fin 0 < mass obj"
    by simp_all
  have d: "\<not> horizontal_distance x z obj < Fin 0"
    by (cases "position obj") (simp add: horizontal_distance_def Let_def Math_sqrt_not_negative)
  have "\<not> Fin 0 < y - (mass obj * Fin 2.0) / (horizontal_distance x z obj + Fin 0.2)"
    by (rule subtract_not_positive[OF Cons.prems(2) deformation_not_negative[OF m d]])
  from Cons.IH[OF r this] Cons.IH[OF r Cons.prems(2)] show ?case
    by (simp add: Let_def)
qed

text \<open>
  Claim C10. When every object has a mass above zero, no vertex of either buffer has a
  height above zero after the frame; when the positions and masses of the objects and the
  coordinates of the vertex are finite as well, the height is a finite number and at most
  zero.
\<close>

theorem heights_never_positive:
  assumes "\<forall>obj \<in> set objects. Fin 0 < mass obj"
    and "(x, y, z) \<in> set (fst (deformation_frame objects positions gridPositions))
           \<union> set (snd (deformation_frame objects positions gridPositions))"
  shows "\<not> Fin 0 < y \<and>
         ((\<forall>obj \<in> set objects. finite_position obj \<and> is_finite (mass obj)) \<longrightarrow>
          is_finite x \<longrightarrow> is_finite z \<longrightarrow> is_finite y \<and> y \<le> Fin 0)"
proof (rule conjI)
  have y: "y = deform objects x z (Fin 0)"
    using deformation_frame_vertex[OF assms(2)] by (simp add: recomputed_height_def)
  show "\<not> Fin 0 < y"
    unfolding y by (rule deform_not_positive[OF assms(1)]) simp
  show "(\<forall>obj \<in> set objects. finite_position obj \<and> is_finite (mass obj)) \<longrightarrow>
          is_finite x \<longrightarrow> is_finite z \<longrightarrow> is_finite y \<and> y \<le> Fin 0"
  proof (intro impI)
    assume f: "\<forall>obj \<in> set objects. finite_position obj \<and> is_finite (mass obj)"
      and "is_finite x" and "is_finite z"
    then obtain a c where xz: "x = Fin a" "z = Fin c"
      unfolding is_finite_iff by blast
    have w: "\<forall>obj \<in> set objects. finite_position obj \<and> positive_mass obj"
      using f assms(1) by (simp add: positive_mass_def)
    from deform_finite_le[OF w, of a c 0] obtain h' where
      h': "deform objects (Fin a) (Fin c) (Fin 0) = Fin h'" "h' \<le> 0" by blast
    have "y = Fin h'" using y h'(1) xz by simp
    with h'(2) show "is_finite y \<and> y \<le> Fin 0" by (auto simp: less_eq_number_def)
  qed
qed

theorem heights_never_positive_witness:
  "Fin 0 < mass rock \<and> finite_position rock \<and> is_finite (mass rock) \<and>
   deformation_frame [rock] [(Fin 1, Fin 5, Fin 0)] [] = ([(Fin 1, Fin (- (5 / 3)), Fin 0)], []) \<and>
   \<not> Fin 0 < Fin (- (5 / 3)) \<and> is_finite (Fin (- (5 / 3))) \<and> Fin (- (5 / 3)) \<le> Fin 0"
proof -
  have p: "\<forall>obj \<in> set [rock]. Fin 0 < mass obj"
    by (simp add: rock_def body_def)
  have w: "\<forall>obj \<in> set [rock]. finite_position obj \<and> is_finite (mass obj)"
    by (simp add: finite_position_def rock_def body_def)
  have f: "deformation_frame [rock] [(Fin 1, Fin 5, Fin 0)] [] = ([(Fin 1, Fin (- (5 / 3)), Fin 0)], [])"
    by (simp add: deformation_frame_def apply_deformation_def reset_positions_def
        horizontal_distance_def minus_number_def rock_def body_def)
  have m: "(Fin 1, Fin (- (5 / 3)), Fin 0)
      \<in> set (fst (deformation_frame [rock] [(Fin 1, Fin 5, Fin 0)] []))
        \<union> set (snd (deformation_frame [rock] [(Fin 1, Fin 5, Fin 0)] []))"
    unfolding f by simp
  have "\<not> Fin 0 < Fin (- (5 / 3)) \<and> is_finite (Fin (- (5 / 3))) \<and> Fin (- (5 / 3)) \<le> Fin 0"
    using heights_never_positive[OF p m] w by simp
  with p w f show ?thesis by simp
qed






end
